theory Spec2Isabelle
  imports Complex_Main "HOL-Library.Sublist"
begin

section \<open>The investments page: data model\<close>

text \<open>
  The page component \<^verbatim>\<open>InvestmentsPage\<close> keeps six state variables and derives the
  filtered list, the page count and the visible slice from them on every render.

  A JavaScript string is a sequence of UTF-16 code units; a code unit is a number here.
  No modelled operation does arithmetic on code units, only equality.
\<close>

type_synonym jsstring = "nat list"

text \<open>A source literal whose characters are all below U+0100, as code units.\<close>

definition str :: "string \<Rightarrow> jsstring" where
  "str cs = map of_char cs"

text \<open>
  \<^verbatim>\<open>type Investment = { id: number, name: string, type: string, amount: number, date: string }\<close>.
  The fields \<open>amount\<close> and \<open>date\<close> are only displayed; the amount is kept as a rational.
\<close>

record Investment =
  id_inv :: int
  name_inv :: jsstring
  type_inv :: jsstring
  amount_inv :: rat
  date_inv :: jsstring

text \<open>The \<^verbatim>\<open>useState\<close> variables of the component, with the types the source declares.\<close>

record State =
  investments :: "Investment list"
  loading :: bool
  error :: "jsstring option"
  typeFilter :: jsstring
  searchQuery :: jsstring
  currentPage :: int

definition itemsPerPage :: int where
  "itemsPerPage = 5"

text \<open>The initial values passed to \<^verbatim>\<open>useState\<close>.\<close>

definition initialState :: State where
  "initialState =
     \<lparr>investments = [], loading = True, error = None,
      typeFilter = [], searchQuery = [], currentPage = 1\<rparr>"

section \<open>JavaScript primitives the component uses\<close>

text \<open>A string used as a condition is true unless it is empty; \<^verbatim>\<open>null\<close> is false.\<close>

definition truthy :: "jsstring \<Rightarrow> bool" where
  "truthy s = (s \<noteq> [])"

fun truthy_opt :: "jsstring option \<Rightarrow> bool" where
  "truthy_opt None = False"
| "truthy_opt (Some s) = truthy s"

text \<open>
  \<^verbatim>\<open>s.includes(t)\<close>: does \<open>t\<close> occur in \<open>s\<close> at some position. The search tries
  every start position of \<open>s\<close> from the left, the end of the string included.
\<close>

fun includes_str :: "'a list \<Rightarrow> 'a list \<Rightarrow> bool" where
  "includes_str [] t = (t = [])"
| "includes_str (c # s) t = (prefix t (c # s) \<or> includes_str s t)"

text \<open>
  \<^verbatim>\<open>xs.slice(start, end)\<close> on integer arguments: a negative index counts from the end,
  both indices are clipped to the array, and an end at or before the start gives the
  empty array.
\<close>

definition slice :: "'a list \<Rightarrow> int \<Rightarrow> int \<Rightarrow> 'a list" where
  "slice xs start_ix end_ix =
     (let len = int (length xs);
          k = (if start_ix < 0 then max (len + start_ix) 0 else min start_ix len);
          final = (if end_ix < 0 then max (len + end_ix) 0 else min end_ix len)
      in take (nat (final - k)) (drop (nat k) xs))"

text \<open>
  \<^verbatim>\<open>String.prototype.toLowerCase\<close> is a table of the Unicode standard and is not part of
  the repository. Every definition that lower-cases takes the function as its first
  argument \<open>lc\<close>, and every theorem holds for any such function. The closed examples
  use the part of the table for code units below U+0100, where lower-casing maps unit
  by unit: A to Z and the accented capitals U+00C0 to U+00DE (without the
  multiplication sign U+00D7) move up by 32.
\<close>

definition toLowerCase_latin1 :: "jsstring \<Rightarrow> jsstring" where
  "toLowerCase_latin1 s =
     map (\<lambda>c. if (65 \<le> c \<and> c \<le> 90) \<or> (192 \<le> c \<and> c \<le> 222 \<and> c \<noteq> 215)
               then c + 32 else c) s"

section \<open>Filter and pagination, derived on every render\<close>

text \<open>
  \<^verbatim>\<open>
  const filteredInvestments = investments.filter((investment) => {
    const matchesType = typeFilter ? investment.type === typeFilter : true
    const matchesSearch = searchQuery
      ? investment.name.toLowerCase().includes(searchQuery.toLowerCase()) : true
    return matchesType && matchesSearch
  })
  \<close>
\<close>

definition matchesType :: "State \<Rightarrow> Investment \<Rightarrow> bool" where
  "matchesType s investment =
     (if truthy (typeFilter s) then type_inv investment = typeFilter s else True)"

definition matchesSearch :: "(jsstring \<Rightarrow> jsstring) \<Rightarrow> State \<Rightarrow> Investment \<Rightarrow> bool" where
  "matchesSearch lc s investment =
     (if truthy (searchQuery s)
      then includes_str (lc (name_inv investment)) (lc (searchQuery s)) else True)"

definition filteredInvestments :: "(jsstring \<Rightarrow> jsstring) \<Rightarrow> State \<Rightarrow> Investment list" where
  "filteredInvestments lc s =
     filter (\<lambda>investment. matchesType s investment \<and> matchesSearch lc s investment)
       (investments s)"

text \<open>
  \<^verbatim>\<open>const totalPages = Math.ceil(filteredInvestments.length / itemsPerPage)\<close>.
  The quotient is taken exactly. An array length is below \<open>2^32\<close>, where the rounded
  quotient of the source has the same ceiling: it is exact when 5 divides the length
  and is otherwise at least 1/5 away from every integer.

  \<^verbatim>\<open>
  const paginatedInvestments =
    filteredInvestments.slice((currentPage - 1) * itemsPerPage, currentPage * itemsPerPage)
  \<close>
\<close>

definition totalPages :: "(jsstring \<Rightarrow> jsstring) \<Rightarrow> State \<Rightarrow> int" where
  "totalPages lc s =
     \<lceil>real (length (filteredInvestments lc s)) / real_of_int itemsPerPage\<rceil>"

definition paginatedInvestments :: "(jsstring \<Rightarrow> jsstring) \<Rightarrow> State \<Rightarrow> Investment list" where
  "paginatedInvestments lc s =
     slice (filteredInvestments lc s)
       ((currentPage s - 1) * itemsPerPage) (currentPage s * itemsPerPage)"

text \<open>
  The specification's reading of the two engines, for comparison with the definitions
  above: a record passes when the category is empty or equal and the search text is
  empty or occurs in the name after case folding; \<open>xs[a : b]\<close> is the elements at the
  positions from \<open>a\<close> up to but not including \<open>b\<close> that exist.
\<close>

definition spec_passes :: "(jsstring \<Rightarrow> jsstring) \<Rightarrow> jsstring \<Rightarrow> jsstring \<Rightarrow> Investment \<Rightarrow> bool" where
  "spec_passes lc category search r =
     ((category = [] \<or> type_inv r = category) \<and>
      (search = [] \<or> (\<exists>before after. lc (name_inv r) = before @ lc search @ after)))"

definition spec_range :: "'a list \<Rightarrow> nat \<Rightarrow> nat \<Rightarrow> 'a list" where
  "spec_range xs a b = map (\<lambda>i. xs ! i) [a ..< min b (length xs)]"

section \<open>What the component renders\<close>

text \<open>
  The component returns the loading text while \<open>loading\<close> holds, then the error text
  when \<open>error\<close> is a non-empty string, and the card with the table otherwise. The table
  body shows the visible slice (a placeholder row when it is empty); below it
  \<^verbatim>\<open>{totalPages > 1 && ( ... )}\<close> shows the two buttons and the page label.
\<close>

record Controls =
  anterior_disabled :: bool
  label_page :: int
  label_total :: int
  proxima_disabled :: bool

datatype View =
    Carregando
  | ErrorText "jsstring option"
  | Page "Investment list" "Controls option"

definition render :: "(jsstring \<Rightarrow> jsstring) \<Rightarrow> State \<Rightarrow> View" where
  "render lc s =
     (if loading s then Carregando
      else if truthy_opt (error s) then ErrorText (error s)
      else Page (paginatedInvestments lc s)
             (if 1 < totalPages lc s
              then Some \<lparr>anterior_disabled = (currentPage s = 1),
                         label_page = currentPage s,
                         label_total = totalPages lc s,
                         proxima_disabled = (currentPage s = totalPages lc s)\<rparr>
              else None))"

fun table_rows :: "View \<Rightarrow> Investment list option" where
  "table_rows (Page rows c) = Some rows"
| "table_rows v = None"

fun pagination_controls :: "View \<Rightarrow> Controls option" where
  "pagination_controls (Page rows c) = c"
| "pagination_controls v = None"

section \<open>Requests, responses and the two asynchronous handlers\<close>

text \<open>
  \<^verbatim>\<open>fetch\<close> either rejects (the transport failed) or resolves to a response with an
  \<open>ok\<close> flag and a body. Reading the body with \<^verbatim>\<open>response.json()\<close> rejects when the
  body is not JSON (\<open>Unparseable\<close>); \<^verbatim>\<open>data.content\<close> throws when the body is the
  JSON value \<^verbatim>\<open>null\<close> (\<open>JsonNull\<close>). Every other body is read without a check,
  since \<^verbatim>\<open>data\<close> has the type \<^verbatim>\<open>any\<close>: \<open>Json c\<close> is a body whose \<open>content\<close> is
  the array \<open>c\<close>, with elements at the declared type \<^verbatim>\<open>Investment\<close>, and
  \<open>JsonNoArray\<close> is a body whose \<open>content\<close> is not an array: the property is missing, as
  in \<^verbatim>\<open>{}\<close>, \<^verbatim>\<open>5\<close> or \<^verbatim>\<open>[]\<close>, or it is \<^verbatim>\<open>null\<close>, a number, a string or an
  object.
\<close>

datatype Request = GET_investments int int | DELETE_investment int

datatype Body = Unparseable | JsonNull | JsonNoArray | Json "Investment list"

text \<open>The value of \<^verbatim>\<open>data.content\<close> that \<^verbatim>\<open>setInvestments\<close> receives.\<close>

datatype Content = NotAnArray | Records "Investment list"

datatype Response = Rejected | Resolved bool Body

datatype exn = Error jsstring | TypeError | SyntaxError

datatype Toast = toast_error jsstring | toast_success jsstring

definition msg_load_error :: jsstring where
  "msg_load_error = str ''Erro ao carregar investimentos''"

definition msg_delete_error :: jsstring where
  "msg_delete_error = str ''Erro ao excluir investimento''"

definition msg_delete_success :: jsstring where
  "msg_delete_success = str ''Investimento exclu'' @ [237] @ str ''do com sucesso''"

text \<open>
  \<^verbatim>\<open>
  const fetchInvestments = async () => {
    try {
      setLoading(true)
      const response = await fetch(`/investments?page=${currentPage - 1}&size=${itemsPerPage}`)
      if (!response.ok) { throw new Error('Erro ao carregar investimentos') }
      const data = await response.json()
      setInvestments(data.content)
      setError(null)
    } catch (err) {
      setError("Erro ao carregar investimentos")
      toast.error("Erro ao carregar investimentos")
    } finally {
      setLoading(false)
    }
  }
  \<close>
  The function runs up to the first \<^verbatim>\<open>await\<close> when it is called
  (\<open>fetchInvestments_start\<close>: the state it leaves and the request it sends) and runs the
  rest when the response arrives (\<open>fetchInvestments_resume\<close>, on the state of that
  moment). The part of the \<^verbatim>\<open>try\<close> block after the request either throws or yields
  the value of \<^verbatim>\<open>data.content\<close>.

  The continuation ends in one of two ways. \<open>Rendered s ts\<close>: the variables are \<open>s\<close>,
  the notifications \<open>ts\<close> were shown, and the component renders from \<open>s\<close>.
  \<open>RenderThrows s\<close>: the list variable holds a value that is not an array and the other
  five variables are those of \<open>s\<close>; the render that follows throws a \<^verbatim>\<open>TypeError\<close> at
  \<^verbatim>\<open>investments.filter\<close>, which comes before the loading and error returns, and the
  component is removed from the page.
\<close>

datatype Outcome = Rendered State "Toast list" | RenderThrows State

definition fetchInvestments_start :: "State \<Rightarrow> State \<times> Request" where
  "fetchInvestments_start s =
     (s\<lparr>loading := True\<rparr>, GET_investments (currentPage s - 1) itemsPerPage)"

fun fetchInvestments_try :: "Response \<Rightarrow> exn + Content" where
  "fetchInvestments_try Rejected = Inl TypeError"
| "fetchInvestments_try (Resolved ok b) =
     (if \<not> ok then Inl (Error msg_load_error)
      else case b of
             Unparseable \<Rightarrow> Inl SyntaxError
           | JsonNull \<Rightarrow> Inl TypeError
           | JsonNoArray \<Rightarrow> Inr NotAnArray
           | Json c \<Rightarrow> Inr (Records c))"

definition fetchInvestments_resume :: "Response \<Rightarrow> State \<Rightarrow> Outcome" where
  "fetchInvestments_resume r s =
     (case fetchInvestments_try r of
        Inr (Records c) \<Rightarrow> Rendered (s\<lparr>investments := c, error := None, loading := False\<rparr>) []
      | Inr NotAnArray \<Rightarrow> RenderThrows (s\<lparr>error := None, loading := False\<rparr>)
      | Inl err \<Rightarrow>
          Rendered (s\<lparr>error := Some msg_load_error, loading := False\<rparr>)
            [toast_error msg_load_error])"

text \<open>
  \<^verbatim>\<open>
  const handleDelete = async (id: number) => {
    try {
      const response = await fetch(`/investments/${id}`, { method: 'DELETE' })
      if (!response.ok) { throw new Error('Failed to delete investment') }
      setInvestments(investments.filter((investment) => investment.id !== id))
      toast.success("Investimento excluido com sucesso")   // the first i of "excluido" is U+00ED
    } catch (err) {
      toast.error("Erro ao excluir investimento")
    }
  }
  \<close>
  The name \<^verbatim>\<open>investments\<close> in the body is the constant of the render in which the
  clicked button was created, so the continuation after the \<^verbatim>\<open>await\<close> filters the
  list of that render: \<open>handleDelete_resume\<close> takes it as \<open>snapshot\<close>, next to the state
  of the moment the response arrives.
\<close>

definition handleDelete_start :: "int \<Rightarrow> State \<Rightarrow> Investment list \<times> Request" where
  "handleDelete_start ident s = (investments s, DELETE_investment ident)"

fun handleDelete_try :: "Response \<Rightarrow> exn + unit" where
  "handleDelete_try Rejected = Inl TypeError"
| "handleDelete_try (Resolved ok b) =
     (if \<not> ok then Inl (Error (str ''Failed to delete investment'')) else Inr ())"

definition handleDelete_resume ::
    "int \<Rightarrow> Investment list \<Rightarrow> Response \<Rightarrow> State \<Rightarrow> State \<times> Toast list" where
  "handleDelete_resume ident snapshot r s =
     (case handleDelete_try r of
        Inr u \<Rightarrow>
          (s\<lparr>investments := filter (\<lambda>investment. id_inv investment \<noteq> ident) snapshot\<rparr>,
           [toast_success msg_delete_success])
      | Inl err \<Rightarrow> (s, [toast_error msg_delete_error]))"

section \<open>The synchronous handlers\<close>

text \<open>
  \<^verbatim>\<open>
  onChange={(e) => { setSearchQuery(e.target.value); setCurrentPage(1) }}
  onValueChange={(value) => { setTypeFilter(value); setCurrentPage(1) }}
  onClick={() => setCurrentPage((prev) => Math.max(prev - 1, 1))}
  onClick={() => setCurrentPage((prev) => Math.min(prev + 1, totalPages))}
  \<close>
\<close>

definition onChange :: "jsstring \<Rightarrow> State \<Rightarrow> State" where
  "onChange v s = s\<lparr>searchQuery := v, currentPage := 1\<rparr>"

definition onValueChange :: "jsstring \<Rightarrow> State \<Rightarrow> State" where
  "onValueChange v s = s\<lparr>typeFilter := v, currentPage := 1\<rparr>"

definition onClick_Anterior :: "State \<Rightarrow> State" where
  "onClick_Anterior s = s\<lparr>currentPage := max (currentPage s - 1) 1\<rparr>"

definition onClick_Proxima :: "(jsstring \<Rightarrow> jsstring) \<Rightarrow> State \<Rightarrow> State" where
  "onClick_Proxima lc s = s\<lparr>currentPage := min (currentPage s + 1) (totalPages lc s)\<rparr>"

section \<open>The page as a transition system\<close>

text \<open>
  The world is the component state, the requests still in flight with what their
  continuation holds, the log of every request sent, the notifications shown, and
  whether a render threw and the component is gone (\<open>unmounted\<close>). Once it is gone
  nothing is rendered, so no user event is possible; a response that arrives then still
  runs its continuation, whose notifications are shown and whose setters change
  nothing.

  \<^verbatim>\<open>useEffect(() => { fetchInvestments() }, [currentPage])\<close> runs the load on mount and
  after every update that leaves \<open>currentPage\<close> different from before: \<open>commit\<close> installs
  the state a handler produced and runs the effect when the page index changed.
\<close>

datatype Pending = PendingFetch | PendingDelete int "Investment list"

record World =
  state :: State
  inflight :: "Pending list"
  sent :: "Request list"
  shown :: "Toast list"
  unmounted :: bool

definition run_effect :: "World \<Rightarrow> World" where
  "run_effect w =
     (case fetchInvestments_start (state w) of
        (s', req) \<Rightarrow>
          w\<lparr>state := s', inflight := inflight w @ [PendingFetch], sent := sent w @ [req]\<rparr>)"

definition commit :: "State \<Rightarrow> World \<Rightarrow> World" where
  "commit s' w =
     (if currentPage s' \<noteq> currentPage (state w)
      then run_effect (w\<lparr>state := s'\<rparr>)
      else w\<lparr>state := s'\<rparr>)"

definition mount :: World where
  "mount =
     run_effect
       \<lparr>state = initialState, inflight = [], sent = [], shown = [], unmounted = False\<rparr>"

text \<open>
  \<open>view\<close> is what the page shows of the component: nothing once it is gone.

  An event is a user action on an element that the current view shows and enables, or
  the arrival of the response to one request in flight. \<open>step\<close> is \<open>None\<close> for an
  event that cannot happen in the world: the inputs and the delete buttons exist only
  in the table view, a delete button only on a visible row, the page buttons only
  below the table and when not disabled.
\<close>

datatype Event =
    Input jsstring
  | Select jsstring
  | Anterior
  | Proxima
  | Delete int
  | Settle nat Response

definition view :: "(jsstring \<Rightarrow> jsstring) \<Rightarrow> World \<Rightarrow> View option" where
  "view lc w = (if unmounted w then None else Some (render lc (state w)))"

definition view_rows :: "(jsstring \<Rightarrow> jsstring) \<Rightarrow> World \<Rightarrow> Investment list option" where
  "view_rows lc w = (case view lc w of None \<Rightarrow> None | Some v \<Rightarrow> table_rows v)"

definition view_controls :: "(jsstring \<Rightarrow> jsstring) \<Rightarrow> World \<Rightarrow> Controls option" where
  "view_controls lc w = (case view lc w of None \<Rightarrow> None | Some v \<Rightarrow> pagination_controls v)"

definition install :: "State \<Rightarrow> Toast list \<Rightarrow> World \<Rightarrow> World" where
  "install s' ts w =
     (if unmounted w then w\<lparr>shown := shown w @ ts\<rparr>
      else commit s' (w\<lparr>shown := shown w @ ts\<rparr>))"

definition settle :: "Pending \<Rightarrow> Response \<Rightarrow> World \<Rightarrow> World" where
  "settle p r w =
     (case p of
        PendingFetch \<Rightarrow>
          (case fetchInvestments_resume r (state w) of
             Rendered s' ts \<Rightarrow> install s' ts w
           | RenderThrows s' \<Rightarrow> if unmounted w then w else w\<lparr>state := s', unmounted := True\<rparr>)
      | PendingDelete ident snapshot \<Rightarrow>
          (case handleDelete_resume ident snapshot r (state w) of
             (s', ts) \<Rightarrow> install s' ts w))"

fun step :: "(jsstring \<Rightarrow> jsstring) \<Rightarrow> Event \<Rightarrow> World \<Rightarrow> World option" where
  "step lc (Input v) w =
     (case view_rows lc w of
        Some rows \<Rightarrow> Some (commit (onChange v (state w)) w)
      | None \<Rightarrow> None)"
| "step lc (Select v) w =
     (case view_rows lc w of
        Some rows \<Rightarrow> Some (commit (onValueChange v (state w)) w)
      | None \<Rightarrow> None)"
| "step lc Anterior w =
     (case view_controls lc w of
        Some c \<Rightarrow>
          if anterior_disabled c then None else Some (commit (onClick_Anterior (state w)) w)
      | None \<Rightarrow> None)"
| "step lc Proxima w =
     (case view_controls lc w of
        Some c \<Rightarrow>
          if proxima_disabled c then None else Some (commit (onClick_Proxima lc (state w)) w)
      | None \<Rightarrow> None)"
| "step lc (Delete ident) w =
     (case view_rows lc w of
        Some rows \<Rightarrow>
          if ident \<in> set (map id_inv rows)
          then (case handleDelete_start ident (state w) of
                  (snapshot, req) \<Rightarrow>
                    Some (w\<lparr>inflight := inflight w @ [PendingDelete ident snapshot],
                            sent := sent w @ [req]\<rparr>))
          else None
      | None \<Rightarrow> None)"
| "step lc (Settle n r) w =
     (if n < length (inflight w)
      then Some (settle (inflight w ! n) r
                   (w\<lparr>inflight := take n (inflight w) @ drop (Suc n) (inflight w)\<rparr>))
      else None)"

fun run :: "(jsstring \<Rightarrow> jsstring) \<Rightarrow> Event list \<Rightarrow> World \<Rightarrow> World option" where
  "run lc [] w = Some w"
| "run lc (e # es) w = (case step lc e w of None \<Rightarrow> None | Some w' \<Rightarrow> run lc es w')"

text \<open>Records for the closed examples.\<close>

definition rec_n :: "int \<Rightarrow> Investment" where
  "rec_n n =
     \<lparr>id_inv = n, name_inv = str ''Tesouro'', type_inv = str ''Renda'',
      amount_inv = 100, date_inv = str ''2024-01-01''\<rparr>"

definition tesouro :: Investment where
  "tesouro =
     \<lparr>id_inv = 1, name_inv = str ''Tesouro'', type_inv = str ''A'' @ [231, 245] @ str ''es'',
      amount_inv = 1000, date_inv = str ''2024-01-01''\<rparr>"

definition ape_centro :: Investment where
  "ape_centro =
     \<lparr>id_inv = 2, name_inv = str ''Ap'' @ [234] @ str '' Centro'',
      type_inv = str ''Im'' @ [243] @ str ''veis'',
      amount_inv = 250000, date_inv = str ''2024-02-01''\<rparr>"

definition three_records :: "Investment list" where
  "three_records = map rec_n [1, 2, 3]"

definition six_records :: "Investment list" where
  "six_records = map rec_n [1, 2, 3, 4, 5, 6]"

definition sixteen_records :: "Investment list" where
  "sixteen_records = map rec_n [1, 2, 3, 4, 5, 6, 7, 8, 9, 10, 11, 12, 13, 14, 15, 16]"

text \<open>The world after page \<open>p\<close> was loaded with six records, nothing in flight.\<close>

definition loaded_world :: "int \<Rightarrow> World" where
  "loaded_world p =
     \<lparr>state = initialState\<lparr>investments := six_records, loading := False, currentPage := p\<rparr>,
      inflight = [], sent = [GET_investments (p - 1) 5], shown = [], unmounted = False\<rparr>"

definition beyond_state :: State where
  "beyond_state = initialState\<lparr>investments := six_records, loading := False, currentPage := 4\<rparr>"

definition controls_and_total ::
    "(jsstring \<Rightarrow> jsstring) \<Rightarrow> World \<Rightarrow> Controls option \<times> int" where
  "controls_and_total lc w = (view_controls lc w, totalPages lc (state w))"

definition error_and_view :: "(jsstring \<Rightarrow> jsstring) \<Rightarrow> World \<Rightarrow> jsstring option \<times> View option" where
  "error_and_view lc w = (error (state w), view lc w)"

definition page_and_total :: "(jsstring \<Rightarrow> jsstring) \<Rightarrow> World \<Rightarrow> int \<times> int" where
  "page_and_total lc w = (currentPage (state w), totalPages lc (state w))"

text \<open>The worlds the page can be in: the mounted page and every world an event leads to.\<close>

inductive reachable :: "(jsstring \<Rightarrow> jsstring) \<Rightarrow> World \<Rightarrow> bool" for lc where
  reachable_mount: "reachable lc mount"
| reachable_step: "reachable lc w \<Longrightarrow> step lc e w = Some w' \<Longrightarrow> reachable lc w'"

section \<open>Properties of the primitives\<close>

lemma includes_iff_sublist: "includes_str s t \<longleftrightarrow> sublist t s"
  by (induction s) (simp_all add: sublist_Cons_right)

lemma includes_iff_occurs: "includes_str s t \<longleftrightarrow> (\<exists>before after. s = before @ t @ after)"
  by (simp add: includes_iff_sublist sublist_def)

lemma take_drop_range:
  assumes "a \<le> b"
  shows "take (min b (length xs) - min a (length xs)) (drop (min a (length xs)) xs)
         = map (\<lambda>i. xs ! i) [a ..< min b (length xs)]"
proof (cases "a \<le> length xs")
  case True
  have "map (\<lambda>i. xs ! i) [a ..< min b (length xs)] = take (min b (length xs) - a) (drop a xs)"
    by (rule nth_equalityI) (use True assms in \<open>auto simp: min_def\<close>)
  with True show ?thesis by (simp add: min_def)
next
  case False
  then show ?thesis using assms by (simp add: min_def)
qed

lemma slice_nonneg:
  assumes "0 \<le> a" and "a \<le> b"
  shows "slice xs a b = spec_range xs (nat a) (nat b)"
proof -
  let ?n = "length xs"
  have k: "nat (min a (int ?n)) = min (nat a) ?n"
    using assms by (simp add: min_def)
  have f: "nat (min b (int ?n) - min a (int ?n)) = min (nat b) ?n - min (nat a) ?n"
    using assms by (auto simp: min_def)
  have ab: "nat a \<le> nat b"
    using assms by simp
  have "slice xs a b = take (min (nat b) ?n - min (nat a) ?n) (drop (min (nat a) ?n) xs)"
    using assms k f by (simp add: slice_def Let_def)
  also have "\<dots> = map (\<lambda>i. xs ! i) [nat a ..< min (nat b) ?n]"
    by (rule take_drop_range [OF ab])
  finally show ?thesis by (simp add: spec_range_def)
qed

lemma ceiling_div_five: "\<lceil>real n / 5\<rceil> = (int n + 4) div 5"
proof -
  have "\<lceil>real n / 5\<rceil> = \<lceil>real_of_int (int n) / real_of_int 5\<rceil>" by simp
  also have "\<dots> = - ((- int n) div 5)"
    unfolding ceiling_def by (metis floor_divide_of_int_eq minus_divide_left of_int_minus)
  also have "\<dots> = (int n + 4) div 5" by linarith
  finally show ?thesis .
qed

lemma matches_iff_spec:
  "(matchesType s r \<and> matchesSearch lc s r) = spec_passes lc (typeFilter s) (searchQuery s) r"
  by (simp add: matchesType_def matchesSearch_def spec_passes_def truthy_def includes_iff_occurs)

lemma total_pages_div: "totalPages lc s = (int (length (filteredInvestments lc s)) + 4) div 5"
  by (simp add: totalPages_def itemsPerPage_def ceiling_div_five)

lemma filtered_no_filter:
  "typeFilter s = [] \<Longrightarrow> searchQuery s = [] \<Longrightarrow> filteredInvestments lc s = investments s"
  by (simp add: filteredInvestments_def matchesType_def matchesSearch_def truthy_def)

lemma total_pages_nonneg: "0 \<le> totalPages lc s"
  unfolding total_pages_div by linarith

lemma page_beyond_empty:
  assumes "1 \<le> currentPage s" and "totalPages lc s < currentPage s"
  shows "paginatedInvestments lc s = []"
proof -
  have "int (length (filteredInvestments lc s)) \<le> totalPages lc s * 5"
    unfolding total_pages_div by linarith
  moreover have "totalPages lc s * 5 \<le> (currentPage s - 1) * 5"
    using assms by simp
  ultimately have "int (length (filteredInvestments lc s)) \<le> (currentPage s - 1) * 5"
    by linarith
  with assms(1) show ?thesis
    by (simp add: paginatedInvestments_def itemsPerPage_def slice_nonneg spec_range_def)
qed

section \<open>Properties of the handlers and of the transition system\<close>

lemma msg_load_error_truthy: "truthy msg_load_error"
  by (simp add: truthy_def msg_load_error_def str_def)

lemma fetch_try_fails_iff:
  "(\<exists>e. fetchInvestments_try r = Inl e) \<longleftrightarrow>
     (r = Rejected \<or> (\<exists>b. r = Resolved False b) \<or> r = Resolved True Unparseable
      \<or> r = Resolved True JsonNull)"
  by (cases r rule: fetchInvestments_try.cases) (auto split: Body.splits)

lemma fetch_resume_failure:
  "fetchInvestments_try r = Inl e \<Longrightarrow>
   fetchInvestments_resume r s =
     Rendered (s\<lparr>error := Some msg_load_error, loading := False\<rparr>) [toast_error msg_load_error]"
  by (simp add: fetchInvestments_resume_def)

lemma fetch_resume_success:
  "fetchInvestments_try r = Inr (Records c) \<Longrightarrow>
   fetchInvestments_resume r s =
     Rendered (s\<lparr>investments := c, error := None, loading := False\<rparr>) []"
  by (simp add: fetchInvestments_resume_def)

lemma fetch_resume_no_array:
  "fetchInvestments_try r = Inr NotAnArray \<Longrightarrow>
   fetchInvestments_resume r s = RenderThrows (s\<lparr>error := None, loading := False\<rparr>)"
  by (simp add: fetchInvestments_resume_def)

lemma fetch_resume_rendered:
  "fetchInvestments_resume r s = Rendered s' ts \<Longrightarrow>
   currentPage s' = currentPage s \<and> (error s' = None \<or> error s' = Some msg_load_error)"
  by (auto simp: fetchInvestments_resume_def split: sum.splits Content.splits)

lemma fetch_resume_throws:
  "fetchInvestments_resume r s = RenderThrows s' \<Longrightarrow>
   currentPage s' = currentPage s \<and> error s' = None"
  by (auto simp: fetchInvestments_resume_def split: sum.splits Content.splits)

lemma delete_resume_failure:
  "handleDelete_try r = Inl e \<Longrightarrow>
   handleDelete_resume i snapshot r s = (s, [toast_error msg_delete_error])"
  by (simp add: handleDelete_resume_def)

lemma delete_resume_success:
  "handleDelete_try r = Inr u \<Longrightarrow>
   handleDelete_resume i snapshot r s =
     (s\<lparr>investments := filter (\<lambda>investment. id_inv investment \<noteq> i) snapshot\<rparr>,
      [toast_success msg_delete_success])"
  by (simp add: handleDelete_resume_def)

lemma delete_resume_page: "currentPage (fst (handleDelete_resume i snapshot r s)) = currentPage s"
  by (simp add: handleDelete_resume_def split: sum.splits)

lemma delete_resume_error: "error (fst (handleDelete_resume i snapshot r s)) = error s"
  by (simp add: handleDelete_resume_def split: sum.splits)

text \<open>
  A delete whose response arrives before anything else changed the list removes the
  record from the list in memory, leaves the filter inputs and the page index alone,
  and sends nothing.
\<close>

lemma delete_resume_at_once:
  "handleDelete_resume i (fst (handleDelete_start i s)) (Resolved True b) s =
     (s\<lparr>investments := filter (\<lambda>investment. id_inv investment \<noteq> i) (investments s)\<rparr>,
      [toast_success msg_delete_success])"
  by (simp add: handleDelete_resume_def handleDelete_start_def)

lemma commit_same_page: "currentPage s' = currentPage (state w) \<Longrightarrow> commit s' w = w\<lparr>state := s'\<rparr>"
  by (simp add: commit_def)

lemma commit_error: "error (state (commit s' w)) = error s'"
  by (simp add: commit_def run_effect_def fetchInvestments_start_def)

lemma commit_filter_input:
  "currentPage s' = 1 \<Longrightarrow>
   sent (commit s' w) = sent w @ (if currentPage (state w) = 1 then [] else [GET_investments 0 5])
   \<and> state (commit s' w) = (if currentPage (state w) = 1 then s' else s'\<lparr>loading := True\<rparr>)"
  by (simp add: commit_def run_effect_def fetchInvestments_start_def itemsPerPage_def)

text \<open>When a commit sends a request, it is the load of the new page, with \<open>loading\<close> set.\<close>

lemma commit_sends:
  assumes "sent (commit s' w) = sent w @ [req]"
  shows "req = GET_investments (currentPage s' - 1) 5 \<and> state (commit s' w) = s'\<lparr>loading := True\<rparr>"
  using assms
  by (auto simp: commit_def run_effect_def fetchInvestments_start_def itemsPerPage_def
      split: if_splits)

text \<open>The arrival of a response never changes the page index, so it never runs the effect.\<close>

lemma install_same_page:
  "currentPage s' = currentPage (state w) \<Longrightarrow>
   install s' ts w =
     (if unmounted w then w\<lparr>shown := shown w @ ts\<rparr>
      else w\<lparr>shown := shown w @ ts, state := s'\<rparr>)"
  by (simp add: install_def commit_same_page)

lemma settle_fetch:
  "settle PendingFetch r w =
     (case fetchInvestments_resume r (state w) of
        Rendered s' ts \<Rightarrow>
          if unmounted w then w\<lparr>shown := shown w @ ts\<rparr>
          else w\<lparr>shown := shown w @ ts, state := s'\<rparr>
      | RenderThrows s' \<Rightarrow> if unmounted w then w else w\<lparr>state := s', unmounted := True\<rparr>)"
  by (auto simp: settle_def install_same_page dest: fetch_resume_rendered split: Outcome.splits)

lemma settle_delete:
  "settle (PendingDelete i snapshot) r w =
     (if unmounted w
      then w\<lparr>shown := shown w @ snd (handleDelete_resume i snapshot r (state w))\<rparr>
      else w\<lparr>shown := shown w @ snd (handleDelete_resume i snapshot r (state w)),
             state := fst (handleDelete_resume i snapshot r (state w))\<rparr>)"
  using delete_resume_page [of i snapshot r "state w"]
  by (simp add: settle_def split_beta install_same_page)

lemma settle_sent: "sent (settle p r w) = sent w"
  by (cases p) (simp_all add: settle_fetch settle_delete split: Outcome.splits)

lemma settle_inflight: "inflight (settle p r w) = inflight w"
  by (cases p) (simp_all add: settle_fetch settle_delete split: Outcome.splits)

lemma settle_page: "currentPage (state (settle p r w)) = currentPage (state w)"
  by (cases p)
    (auto simp: settle_fetch settle_delete delete_resume_page
      dest: fetch_resume_rendered fetch_resume_throws split: Outcome.splits)

lemma settle_error:
  "error (state (settle p r w)) = error (state w) \<or> error (state (settle p r w)) = None
   \<or> error (state (settle p r w)) = Some msg_load_error"
  by (cases p)
    (auto simp: settle_fetch settle_delete delete_resume_error
      dest: fetch_resume_rendered fetch_resume_throws split: Outcome.splits)

lemma view_rows_page:
  "view_rows lc w = Some rows \<Longrightarrow>
   \<not> unmounted w \<and> \<not> loading (state w) \<and> \<not> truthy_opt (error (state w))"
  by (auto simp: view_rows_def view_def render_def split: if_splits)

lemma view_controls_page:
  "view_controls lc w = Some c \<Longrightarrow>
   \<not> unmounted w \<and> \<not> loading (state w) \<and> \<not> truthy_opt (error (state w))"
  by (auto simp: view_controls_def view_def render_def split: if_splits)

lemma step_page_view:
  "step lc (Input v) w = Some w' \<Longrightarrow> w' = commit (onChange v (state w)) w"
  "step lc (Select v) w = Some w' \<Longrightarrow> w' = commit (onValueChange v (state w)) w"
  by (auto split: option.splits)

lemma step_settle_page:
  "step lc (Settle n r) w = Some w' \<Longrightarrow> currentPage (state w') = currentPage (state w)"
  by (auto simp: settle_page split: if_splits)

lemma step_delete_state:
  "step lc (Delete i) w = Some w' \<Longrightarrow> state w' = state w"
  by (auto simp: handleDelete_start_def split: option.splits if_splits)

text \<open>
  A step that sends a page request is a user event in the table view; it commits a
  state that differs from the old one in the filter inputs and the page index only.
\<close>

lemma step_sends_get:
  assumes "step lc e w = Some w'" and "sent w' = sent w @ [GET_investments p n]"
  shows "\<not> truthy_opt (error (state w))
       \<and> (\<exists>s'. w' = commit s' w \<and> error s' = error (state w))"
proof (cases e)
  case (Input v)
  with assms(1) have "w' = commit (onChange v (state w)) w"
    by (simp only: step_page_view(1))
  moreover from Input assms(1) have "\<not> truthy_opt (error (state w))"
    by (auto dest: view_rows_page split: option.splits)
  ultimately show ?thesis by (auto simp: onChange_def)
next
  case (Select v)
  with assms(1) have "w' = commit (onValueChange v (state w)) w"
    by (simp only: step_page_view(2))
  moreover from Select assms(1) have "\<not> truthy_opt (error (state w))"
    by (auto dest: view_rows_page split: option.splits)
  ultimately show ?thesis by (auto simp: onValueChange_def)
next
  case Anterior
  with assms(1) have "w' = commit (onClick_Anterior (state w)) w"
    by (auto split: option.splits if_splits)
  moreover from Anterior assms(1) have "\<not> truthy_opt (error (state w))"
    by (auto dest: view_controls_page split: option.splits)
  ultimately show ?thesis by (auto simp: onClick_Anterior_def)
next
  case Proxima
  with assms(1) have "w' = commit (onClick_Proxima lc (state w)) w"
    by (auto split: option.splits if_splits)
  moreover from Proxima assms(1) have "\<not> truthy_opt (error (state w))"
    by (auto dest: view_controls_page split: option.splits)
  ultimately show ?thesis by (auto simp: onClick_Proxima_def)
next
  case (Delete i)
  with assms show ?thesis by (auto simp: handleDelete_start_def split: option.splits if_splits)
next
  case (Settle k r)
  with assms show ?thesis by (auto simp: settle_sent split: if_splits)
qed

text \<open>In every reachable world the error is \<open>null\<close> or the load message.\<close>

lemma step_error:
  assumes "step lc e w = Some w'"
  shows "error (state w') = error (state w) \<or> error (state w') = None
         \<or> error (state w') = Some msg_load_error"
proof (cases e)
  case (Input v)
  with assms have "w' = commit (onChange v (state w)) w"
    by (simp only: step_page_view(1))
  then show ?thesis
    by (simp add: commit_error onChange_def)
next
  case (Select v)
  with assms have "w' = commit (onValueChange v (state w)) w"
    by (simp only: step_page_view(2))
  then show ?thesis
    by (simp add: commit_error onValueChange_def)
next
  case Anterior
  with assms show ?thesis
    by (auto simp: commit_error onClick_Anterior_def split: option.splits if_splits)
next
  case Proxima
  with assms show ?thesis
    by (auto simp: commit_error onClick_Proxima_def split: option.splits if_splits)
next
  case (Delete i)
  with assms show ?thesis
    by (auto simp: handleDelete_start_def split: option.splits if_splits)
next
  case (Settle n r)
  with assms show ?thesis
    using settle_error [of "inflight w ! n" r
        "w\<lparr>inflight := take n (inflight w) @ drop (Suc n) (inflight w)\<rparr>"]
    by (auto split: if_splits)
qed

lemma reachable_error:
  "reachable lc w \<Longrightarrow> error (state w) = None \<or> error (state w) = Some msg_load_error"
proof (induction rule: reachable.induct)
  case reachable_mount
  show ?case
    by (simp add: mount_def run_effect_def fetchInvestments_start_def initialState_def)
next
  case (reachable_step w e w')
  with step_error [of lc e w w'] show ?case by auto
qed

section \<open>The Filter Engine\<close>

text \<open>
  Claim C2. For every loaded record list and filter state, the filtered list is the
  records that pass the specification's predicate (category empty or equal, and search
  text empty or contained in the name, both case-folded), in their original order: it
  is a subsequence of the loaded list. With both filter fields empty the result is the
  loaded list itself.
\<close>

theorem filter_engine:
  "filteredInvestments lc s =
     filter (spec_passes lc (typeFilter s) (searchQuery s)) (investments s)
   \<and> subseq (filteredInvestments lc s) (investments s)
   \<and> filteredInvestments lc (s\<lparr>typeFilter := [], searchQuery := []\<rparr>) = investments s"
proof (intro conjI)
  show "filteredInvestments lc s =
        filter (spec_passes lc (typeFilter s) (searchQuery s)) (investments s)"
    by (simp add: filteredInvestments_def matches_iff_spec)
  show "subseq (filteredInvestments lc s) (investments s)"
    by (simp add: filteredInvestments_def)
  show "filteredInvestments lc (s\<lparr>typeFilter := [], searchQuery := []\<rparr>) = investments s"
    by (simp add: filtered_no_filter)
qed

text \<open>
  The search text \<open>AP\<close> followed by a capital E with circumflex finds the name that
  starts with \<open>Ap\<close> and a small e with circumflex, and only that one.
\<close>

theorem filter_engine_witness:
  "filter (spec_passes toLowerCase_latin1 [] (str ''AP'' @ [202])) [tesouro, ape_centro]
     = [ape_centro]
   \<and> subseq [ape_centro] [tesouro, ape_centro]"
proof -
  let ?s = "initialState\<lparr>investments := [tesouro, ape_centro], searchQuery := str ''AP'' @ [202]\<rparr>"
  have f: "filteredInvestments toLowerCase_latin1 ?s = [ape_centro]"
    by code_simp
  have i: "investments ?s = [tesouro, ape_centro]" "typeFilter ?s = []"
    "searchQuery ?s = str ''AP'' @ [202]"
    by (simp_all add: initialState_def)
  from filter_engine [of toLowerCase_latin1 ?s] show ?thesis
    unfolding f i by simp
qed

section \<open>The Pagination Engine\<close>

text \<open>
  Claim C3. For a filtered list of length C, page size 5 and a current page p of at
  least 1, the page count is the ceiling of C / 5, that is the least t with C at most
  5 t, and it is 0 exactly when C is 0; the visible slice is the filtered list from
  position (p - 1) * 5 up to but not including p * 5; a page that starts at or after
  C shows nothing.
\<close>

theorem pagination_engine:
  assumes "1 \<le> currentPage s"
  shows "totalPages lc s = \<lceil>real (length (filteredInvestments lc s)) / 5\<rceil>
       \<and> int (length (filteredInvestments lc s)) \<le> totalPages lc s * 5
       \<and> totalPages lc s * 5 < int (length (filteredInvestments lc s)) + 5
       \<and> (totalPages lc s = 0 \<longleftrightarrow> length (filteredInvestments lc s) = 0)
       \<and> paginatedInvestments lc s =
           spec_range (filteredInvestments lc s)
             (nat ((currentPage s - 1) * 5)) (nat (currentPage s * 5))
       \<and> (int (length (filteredInvestments lc s)) \<le> (currentPage s - 1) * 5
            \<longrightarrow> paginatedInvestments lc s = [])"
proof -
  let ?C = "length (filteredInvestments lc s)"
  have t: "totalPages lc s = \<lceil>real ?C / 5\<rceil>"
    by (simp add: totalPages_def itemsPerPage_def)
  have lo: "int ?C \<le> totalPages lc s * 5"
    unfolding total_pages_div by linarith
  have hi: "totalPages lc s * 5 < int ?C + 5"
    unfolding total_pages_div by linarith
  have z: "totalPages lc s = 0 \<longleftrightarrow> ?C = 0"
    unfolding total_pages_div by linarith
  have r: "paginatedInvestments lc s =
           spec_range (filteredInvestments lc s)
             (nat ((currentPage s - 1) * 5)) (nat (currentPage s * 5))"
    using assms by (simp add: paginatedInvestments_def itemsPerPage_def slice_nonneg)
  have e: "paginatedInvestments lc s = []" if "int ?C \<le> (currentPage s - 1) * 5"
    using that assms unfolding r by (simp add: spec_range_def)
  from t lo hi z r e show ?thesis by blast
qed

text \<open>Seven records on page 2: two pages, and the slice is the sixth and seventh.\<close>

theorem pagination_engine_witness:
  "1 \<le> currentPage (initialState\<lparr>investments := map rec_n [1,2,3,4,5,6,7], currentPage := 2\<rparr>)
   \<and> totalPages toLowerCase_latin1
        (initialState\<lparr>investments := map rec_n [1,2,3,4,5,6,7], currentPage := 2\<rparr>) = 2
   \<and> paginatedInvestments toLowerCase_latin1
        (initialState\<lparr>investments := map rec_n [1,2,3,4,5,6,7], currentPage := 2\<rparr>)
       = [rec_n 6, rec_n 7]"
proof -
  let ?s = "initialState\<lparr>investments := map rec_n [1,2,3,4,5,6,7], currentPage := 2\<rparr>"
  have p: "1 \<le> currentPage ?s" by simp
  have f: "filteredInvestments toLowerCase_latin1 ?s = map rec_n [1,2,3,4,5,6,7]"
    by (simp add: filtered_no_filter initialState_def)
  have r: "spec_range (map rec_n [1,2,3,4,5,6,7]) (nat ((2 - 1) * 5)) (nat (2 * 5))
             = [rec_n 6, rec_n 7]"
    by code_simp
  from pagination_engine [OF p, of toLowerCase_latin1] f r p show ?thesis
    by simp
qed

section \<open>A change of a filter input\<close>

text \<open>
  Claim C1, as the code has it. A change of the search text or of the category
  selection stores the new value and sets the page index to 1. The filtered list, the
  page count and the visible slice of the next render come from the records already
  in memory. A request for page 0 is sent exactly when the page index was not 1
  before the change, through the effect on the page index; from page 1 nothing is
  sent.
\<close>

theorem filter_change_fetch:
  "(step lc (Input v) w = Some w' \<longrightarrow>
      sent w' = sent w @ (if currentPage (state w) = 1 then [] else [GET_investments 0 5])
      \<and> currentPage (state w') = 1
      \<and> investments (state w') = investments (state w)
      \<and> filteredInvestments lc (state w') =
          filter (spec_passes lc (typeFilter (state w)) v) (investments (state w))
      \<and> totalPages lc (state w') = \<lceil>real (length (filteredInvestments lc (state w'))) / 5\<rceil>
      \<and> paginatedInvestments lc (state w') =
          spec_range (filteredInvestments lc (state w')) 0 5)
   \<and> (step lc (Select v) w = Some w' \<longrightarrow>
      sent w' = sent w @ (if currentPage (state w) = 1 then [] else [GET_investments 0 5])
      \<and> currentPage (state w') = 1
      \<and> investments (state w') = investments (state w)
      \<and> filteredInvestments lc (state w') =
          filter (spec_passes lc v (searchQuery (state w))) (investments (state w))
      \<and> totalPages lc (state w') = \<lceil>real (length (filteredInvestments lc (state w'))) / 5\<rceil>
      \<and> paginatedInvestments lc (state w') =
          spec_range (filteredInvestments lc (state w')) 0 5)"
proof (intro conjI impI)
  assume a: "step lc (Input v) w = Some w'"
  let ?s' = "onChange v (state w)"
  have w': "w' = commit ?s' w" using a by (rule step_page_view)
  have p: "currentPage ?s' = 1" by (simp add: onChange_def)
  note c = commit_filter_input [OF p, of w]
  show "sent w' = sent w @ (if currentPage (state w) = 1 then [] else [GET_investments 0 5])"
    using c w' by simp
  show p': "currentPage (state w') = 1"
    using c w' p by simp
  show "investments (state w') = investments (state w)"
    using c w' by (simp add: onChange_def)
  have f: "filteredInvestments lc (state w') = filteredInvestments lc ?s'"
    using c w' by (simp add: filteredInvestments_def matchesType_def matchesSearch_def)
  show "filteredInvestments lc (state w') =
          filter (spec_passes lc (typeFilter (state w)) v) (investments (state w))"
    unfolding f by (simp add: filteredInvestments_def matches_iff_spec onChange_def)
  show "totalPages lc (state w') = \<lceil>real (length (filteredInvestments lc (state w'))) / 5\<rceil>"
    by (simp add: totalPages_def itemsPerPage_def)
  show "paginatedInvestments lc (state w') = spec_range (filteredInvestments lc (state w')) 0 5"
    using p' by (simp add: paginatedInvestments_def itemsPerPage_def slice_nonneg)
next
  assume a: "step lc (Select v) w = Some w'"
  let ?s' = "onValueChange v (state w)"
  have w': "w' = commit ?s' w" using a by (rule step_page_view)
  have p: "currentPage ?s' = 1" by (simp add: onValueChange_def)
  note c = commit_filter_input [OF p, of w]
  show "sent w' = sent w @ (if currentPage (state w) = 1 then [] else [GET_investments 0 5])"
    using c w' by simp
  show p': "currentPage (state w') = 1"
    using c w' p by simp
  show "investments (state w') = investments (state w)"
    using c w' by (simp add: onValueChange_def)
  have f: "filteredInvestments lc (state w') = filteredInvestments lc ?s'"
    using c w' by (simp add: filteredInvestments_def matchesType_def matchesSearch_def)
  show "filteredInvestments lc (state w') =
          filter (spec_passes lc v (searchQuery (state w))) (investments (state w))"
    unfolding f by (simp add: filteredInvestments_def matches_iff_spec onValueChange_def)
  show "totalPages lc (state w') = \<lceil>real (length (filteredInvestments lc (state w'))) / 5\<rceil>"
    by (simp add: totalPages_def itemsPerPage_def)
  show "paginatedInvestments lc (state w') = spec_range (filteredInvestments lc (state w')) 0 5"
    using p' by (simp add: paginatedInvestments_def itemsPerPage_def slice_nonneg)
qed

text \<open>
  On page 2 with six records loaded, typing into the search box sends a request; on
  page 1, choosing a category sends none.
\<close>

theorem filter_change_fetch_witness:
  "step toLowerCase_latin1 (Input (str ''te'')) (loaded_world 2)
     = Some (commit (onChange (str ''te'') (state (loaded_world 2))) (loaded_world 2))
   \<and> sent (commit (onChange (str ''te'') (state (loaded_world 2))) (loaded_world 2))
     = [GET_investments 1 5, GET_investments 0 5]
   \<and> step toLowerCase_latin1 (Select (str ''Renda'')) (loaded_world 1)
     = Some (commit (onValueChange (str ''Renda'') (state (loaded_world 1))) (loaded_world 1))
   \<and> sent (commit (onValueChange (str ''Renda'') (state (loaded_world 1))) (loaded_world 1))
     = [GET_investments 0 5]"
proof -
  have a: "step toLowerCase_latin1 (Input (str ''te'')) (loaded_world 2)
     = Some (commit (onChange (str ''te'') (state (loaded_world 2))) (loaded_world 2))"
    by code_simp
  have b: "sent (loaded_world 2) = [GET_investments 1 5]"
    "currentPage (state (loaded_world 2)) = 2"
    by (simp_all add: loaded_world_def)
  have c: "step toLowerCase_latin1 (Select (str ''Renda'')) (loaded_world 1)
     = Some (commit (onValueChange (str ''Renda'') (state (loaded_world 1))) (loaded_world 1))"
    by code_simp
  have d: "sent (loaded_world 1) = [GET_investments 0 5]"
    "currentPage (state (loaded_world 1)) = 1"
    by (simp_all add: loaded_world_def initialState_def)
  from filter_change_fetch [of toLowerCase_latin1 "str ''te''" "loaded_world 2"
      "commit (onChange (str ''te'') (state (loaded_world 2))) (loaded_world 2)"] a b
  have 1: "sent (commit (onChange (str ''te'') (state (loaded_world 2))) (loaded_world 2))
     = [GET_investments 1 5, GET_investments 0 5]"
    by simp
  from filter_change_fetch [of toLowerCase_latin1 "str ''Renda''" "loaded_world 1"
      "commit (onValueChange (str ''Renda'') (state (loaded_world 1))) (loaded_world 1)"] c d
  have 2: "sent (commit (onValueChange (str ''Renda'') (state (loaded_world 1))) (loaded_world 1))
     = [GET_investments 0 5]"
    by simp
  from a c 1 2 show ?thesis by simp
qed

text \<open>
  Claim C1 as stated fails. The page is mounted, the first load brings six records, the
  user goes to page 2 and that load brings six records again: two requests so far. The
  user then types into the search box, and a third request goes out.
\<close>

theorem filter_change_fetch_counterexample:
  "map_option sent
     (run toLowerCase_latin1
        [Settle 0 (Resolved True (Json six_records)), Proxima,
         Settle 0 (Resolved True (Json six_records))] mount)
     = Some [GET_investments 0 5, GET_investments 1 5]
   \<and> map_option sent
     (run toLowerCase_latin1
        [Settle 0 (Resolved True (Json six_records)), Proxima,
         Settle 0 (Resolved True (Json six_records)), Input (str ''te'')] mount)
     = Some [GET_investments 0 5, GET_investments 1 5, GET_investments 0 5]"
  by code_simp

section \<open>Page navigation\<close>

text \<open>
  Claim C4, as the code has it. The previous-page button maps the page index p to
  max(p - 1, 1) and the next-page button maps it to min(p + 1, totalPages). The first
  never gives a page below 1 and the second never one above totalPages; from a page of
  at most totalPages + 1 both land in the range from 1 to totalPages when there is a
  page at all, and from a page above totalPages + 1 the previous-page button gives
  p - 1, still above totalPages. The arrival of a response and a click on a delete
  button leave the page index as it is, also when it exceeds the recomputed page
  count, and the visible slice is then empty.
\<close>

theorem navigation_clamp:
  "currentPage (onClick_Anterior s) = max (currentPage s - 1) 1
   \<and> currentPage (onClick_Proxima lc s) = min (currentPage s + 1) (totalPages lc s)
   \<and> 1 \<le> currentPage (onClick_Anterior s)
   \<and> currentPage (onClick_Proxima lc s) \<le> totalPages lc s
   \<and> (1 \<le> totalPages lc s \<and> currentPage s \<le> totalPages lc s + 1
        \<longrightarrow> currentPage (onClick_Anterior s) \<le> totalPages lc s)
   \<and> (1 \<le> totalPages lc s \<and> 0 \<le> currentPage s
        \<longrightarrow> 1 \<le> currentPage (onClick_Proxima lc s))
   \<and> (totalPages lc s + 1 < currentPage s
        \<longrightarrow> currentPage (onClick_Anterior s) = currentPage s - 1
            \<and> totalPages lc s < currentPage (onClick_Anterior s))
   \<and> (step lc (Settle n r) w = Some w' \<longrightarrow> currentPage (state w') = currentPage (state w))
   \<and> (step lc (Delete i) w = Some w' \<longrightarrow> currentPage (state w') = currentPage (state w))
   \<and> (1 \<le> currentPage s \<and> totalPages lc s < currentPage s
        \<longrightarrow> paginatedInvestments lc s = [])"
proof -
  have t: "0 \<le> totalPages lc s" by (rule total_pages_nonneg)
  have a: "currentPage (onClick_Anterior s) = max (currentPage s - 1) 1"
    by (simp add: onClick_Anterior_def)
  have p: "currentPage (onClick_Proxima lc s) = min (currentPage s + 1) (totalPages lc s)"
    by (simp add: onClick_Proxima_def)
  have 1: "1 \<le> currentPage (onClick_Anterior s)" unfolding a by simp
  have 2: "currentPage (onClick_Proxima lc s) \<le> totalPages lc s" unfolding p by simp
  have 3: "1 \<le> totalPages lc s \<and> currentPage s \<le> totalPages lc s + 1
        \<longrightarrow> currentPage (onClick_Anterior s) \<le> totalPages lc s"
    unfolding a by simp
  have 4: "1 \<le> totalPages lc s \<and> 0 \<le> currentPage s
        \<longrightarrow> 1 \<le> currentPage (onClick_Proxima lc s)"
    unfolding p by simp
  have 5: "totalPages lc s + 1 < currentPage s
        \<longrightarrow> currentPage (onClick_Anterior s) = currentPage s - 1
            \<and> totalPages lc s < currentPage (onClick_Anterior s)"
    unfolding a using t by (simp add: max_def)
  have 6: "step lc (Settle n r) w = Some w' \<longrightarrow> currentPage (state w') = currentPage (state w)"
    by (simp add: step_settle_page)
  have 7: "step lc (Delete i) w = Some w' \<longrightarrow> currentPage (state w') = currentPage (state w)"
    by (metis step_delete_state)
  have 8: "1 \<le> currentPage s \<and> totalPages lc s < currentPage s
        \<longrightarrow> paginatedInvestments lc s = []"
    by (simp add: page_beyond_empty)
  from a p 1 2 3 4 5 6 7 8 show ?thesis by blast
qed

text \<open>
  Page 4 over six records: two pages and an empty slice; the previous-page button
  gives 3 and the next-page button gives 2. Page 1 over six records: the
  previous-page button stays on 1 and the next-page button gives 2.
\<close>

theorem navigation_clamp_witness:
  "totalPages toLowerCase_latin1 beyond_state + 1 < currentPage beyond_state
   \<and> currentPage (onClick_Anterior beyond_state) = 3
   \<and> currentPage (onClick_Proxima toLowerCase_latin1 beyond_state) = 2
   \<and> paginatedInvestments toLowerCase_latin1 beyond_state = []
   \<and> currentPage (onClick_Anterior (state (loaded_world 1))) = 1
   \<and> currentPage (onClick_Proxima toLowerCase_latin1 (state (loaded_world 1))) = 2"
proof -
  have t: "totalPages toLowerCase_latin1 beyond_state = 2"
    by code_simp
  have c: "currentPage beyond_state = 4"
    by (simp add: beyond_state_def)
  have t1: "totalPages toLowerCase_latin1 (state (loaded_world 1)) = 2"
    by code_simp
  have c1: "currentPage (state (loaded_world 1)) = 1"
    by (simp add: loaded_world_def)
  from navigation_clamp [of beyond_state toLowerCase_latin1] t c
  have 1: "currentPage (onClick_Anterior beyond_state) = 3
     \<and> currentPage (onClick_Proxima toLowerCase_latin1 beyond_state) = 2
     \<and> paginatedInvestments toLowerCase_latin1 beyond_state = []"
    by simp
  from navigation_clamp [of "state (loaded_world 1)" toLowerCase_latin1] t1 c1
  have 2: "currentPage (onClick_Anterior (state (loaded_world 1))) = 1
     \<and> currentPage (onClick_Proxima toLowerCase_latin1 (state (loaded_world 1))) = 2"
    by simp
  from 1 2 t c show ?thesis by simp
qed

text \<open>
  Claim C4 as stated fails on the range. Three loads bring sixteen records each while
  the user goes to page 4, and the load of page 4 brings six records: two pages, stored
  page 4, buttons shown. The previous-page button then stores page 3, above the two
  pages there are.
\<close>

theorem navigation_clamp_counterexample:
  "map_option (page_and_total toLowerCase_latin1)
     (run toLowerCase_latin1
        [Settle 0 (Resolved True (Json sixteen_records)), Proxima,
         Settle 0 (Resolved True (Json sixteen_records)), Proxima,
         Settle 0 (Resolved True (Json sixteen_records)), Proxima,
         Settle 0 (Resolved True (Json six_records))] mount) = Some (4, 2)
   \<and> map_option (page_and_total toLowerCase_latin1)
     (run toLowerCase_latin1
        [Settle 0 (Resolved True (Json sixteen_records)), Proxima,
         Settle 0 (Resolved True (Json sixteen_records)), Proxima,
         Settle 0 (Resolved True (Json sixteen_records)), Proxima,
         Settle 0 (Resolved True (Json six_records)), Anterior] mount) = Some (3, 2)"
  by code_simp

section \<open>Loading a page\<close>

text \<open>
  Claim C5. When the fetch of a load fails (the transport fails, the status is not a
  success, or the body cannot be read), the continuation shows the error notification
  and leaves a state with a non-null error and \<open>loading\<close> false, in which the record list
  is the one that was in memory and the component renders the error text, not the
  table.
\<close>

theorem load_failure:
  assumes "r = Rejected \<or> r = Resolved False b \<or> r = Resolved True Unparseable
           \<or> r = Resolved True JsonNull"
  shows "\<exists>s'. fetchInvestments_resume r s = Rendered s' [toast_error msg_load_error]
       \<and> error s' \<noteq> None
       \<and> \<not> loading s'
       \<and> investments s' = investments s
       \<and> render lc s' = ErrorText (Some msg_load_error)
       \<and> table_rows (render lc s') = None"
proof -
  from assms obtain e where "fetchInvestments_try r = Inl e"
    using fetch_try_fails_iff [of r] by blast
  then have "fetchInvestments_resume r s =
     Rendered (s\<lparr>error := Some msg_load_error, loading := False\<rparr>) [toast_error msg_load_error]"
    by (rule fetch_resume_failure)
  then show ?thesis by (simp add: render_def msg_load_error_truthy)
qed

text \<open>A reload of six loaded records answered with a failure status.\<close>

theorem load_failure_witness:
  "\<exists>s'. fetchInvestments_resume (Resolved False Unparseable)
           (fst (fetchInvestments_start (state (loaded_world 1))))
         = Rendered s' [toast_error msg_load_error]
       \<and> investments s' = six_records
       \<and> render toLowerCase_latin1 s' = ErrorText (Some msg_load_error)"
proof -
  have i: "investments (fst (fetchInvestments_start (state (loaded_world 1)))) = six_records"
    by (simp add: fetchInvestments_start_def loaded_world_def)
  from load_failure [of "Resolved False Unparseable" Unparseable
      "fst (fetchInvestments_start (state (loaded_world 1)))" toLowerCase_latin1]
  show ?thesis unfolding i by blast
qed

text \<open>
  Claim C9, as the code has it. The load ends in the error state, with the error
  notification, exactly when the transport fails, the status is not a success, or the
  body of a success response is not JSON or is \<open>null\<close>. Every other success response
  is taken as a successful load with no check of its shape: a \<open>content\<close> array is
  stored with the error cleared, and a body without a \<open>content\<close> array also clears the
  error and shows no notification, after which the render throws. The arrival of the
  response sends no request: nothing is retried.
\<close>

theorem load_fails_iff:
  "((\<exists>e. fetchInvestments_try r = Inl e) \<longleftrightarrow>
      (r = Rejected \<or> (\<exists>b. r = Resolved False b) \<or> r = Resolved True Unparseable
       \<or> r = Resolved True JsonNull))
   \<and> ((\<exists>e. fetchInvestments_try r = Inl e) \<longleftrightarrow>
        fetchInvestments_resume r s =
          Rendered (s\<lparr>error := Some msg_load_error, loading := False\<rparr>)
            [toast_error msg_load_error])
   \<and> (r = Resolved True (Json c) \<longleftrightarrow>
        fetchInvestments_resume r s =
          Rendered (s\<lparr>investments := c, error := None, loading := False\<rparr>) [])
   \<and> (r = Resolved True JsonNoArray \<longleftrightarrow>
        fetchInvestments_resume r s = RenderThrows (s\<lparr>error := None, loading := False\<rparr>))
   \<and> sent (settle PendingFetch r w) = sent w
   \<and> inflight (settle PendingFetch r w) = inflight w"
proof (intro conjI)
  show "(\<exists>e. fetchInvestments_try r = Inl e) \<longleftrightarrow>
      (r = Rejected \<or> (\<exists>b. r = Resolved False b) \<or> r = Resolved True Unparseable
       \<or> r = Resolved True JsonNull)"
    by (rule fetch_try_fails_iff)
  show "(\<exists>e. fetchInvestments_try r = Inl e) \<longleftrightarrow>
        fetchInvestments_resume r s =
          Rendered (s\<lparr>error := Some msg_load_error, loading := False\<rparr>)
            [toast_error msg_load_error]"
    by (cases "fetchInvestments_try r")
      (simp_all add: fetchInvestments_resume_def split: Content.splits)
  show "r = Resolved True (Json c) \<longleftrightarrow>
        fetchInvestments_resume r s =
          Rendered (s\<lparr>investments := c, error := None, loading := False\<rparr>) []"
  proof
    assume "r = Resolved True (Json c)"
    then show "fetchInvestments_resume r s =
          Rendered (s\<lparr>investments := c, error := None, loading := False\<rparr>) []"
      by (simp add: fetchInvestments_resume_def)
  next
    assume a: "fetchInvestments_resume r s =
          Rendered (s\<lparr>investments := c, error := None, loading := False\<rparr>) []"
    show "r = Resolved True (Json c)"
    proof (cases r rule: fetchInvestments_try.cases)
      case 1
      with a show ?thesis by (simp add: fetchInvestments_resume_def)
    next
      case (2 ok b)
      show ?thesis
      proof (cases b)
        case (Json c')
        with a 2 have ok: "ok"
          by (auto simp: fetchInvestments_resume_def split: if_splits)
        with a 2 Json have "s\<lparr>investments := c', error := None, loading := False\<rparr>
            = s\<lparr>investments := c, error := None, loading := False\<rparr>"
          by (simp add: fetchInvestments_resume_def)
        then have "investments (s\<lparr>investments := c', error := None, loading := False\<rparr>)
            = investments (s\<lparr>investments := c, error := None, loading := False\<rparr>)"
          by (rule arg_cong)
        with 2 Json ok show ?thesis by simp
      qed (use a 2 in \<open>auto simp: fetchInvestments_resume_def split: if_splits\<close>)
    qed
  qed
  show "r = Resolved True JsonNoArray \<longleftrightarrow>
        fetchInvestments_resume r s = RenderThrows (s\<lparr>error := None, loading := False\<rparr>)"
    by (cases r rule: fetchInvestments_try.cases)
      (auto simp: fetchInvestments_resume_def split: Body.splits)
  show "sent (settle PendingFetch r w) = sent w"
    by (rule settle_sent)
  show "inflight (settle PendingFetch r w) = inflight w"
    by (rule settle_inflight)
qed

text \<open>A success status with a body that is not JSON ends in the error state.\<close>

theorem load_fails_iff_witness:
  "fetchInvestments_resume (Resolved True Unparseable) initialState =
     Rendered (initialState\<lparr>error := Some msg_load_error, loading := False\<rparr>)
       [toast_error msg_load_error]"
  using load_fails_iff [of "Resolved True Unparseable" initialState]
  by simp

text \<open>
  Claim C9 as stated fails. The first load is answered with a success status and the
  body \<^verbatim>\<open>{}\<close>. The \<^verbatim>\<open>try\<close> block does not throw; the error stays \<open>null\<close>, no
  notification is shown, and instead of the error text the page shows nothing,
  because the render threw.
\<close>

theorem load_fails_iff_counterexample:
  "fetchInvestments_try (Resolved True JsonNoArray) = Inr NotAnArray
   \<and> fetchInvestments_resume (Resolved True JsonNoArray) (state mount)
       = RenderThrows (initialState\<lparr>loading := False\<rparr>)
   \<and> map_option (error_and_view toLowerCase_latin1)
        (run toLowerCase_latin1 [Settle 0 (Resolved True JsonNoArray)] mount)
       = Some (None, None)
   \<and> map_option shown
        (run toLowerCase_latin1 [Settle 0 (Resolved True JsonNoArray)] mount)
       = Some []"
  by code_simp

text \<open>
  Claim C8. On every invocation the load sets \<open>loading\<close> to true before it sends the
  request for the page before the stored index, with page size 5. The load is invoked
  on mount and by every step that sends a page request; in every reachable world the
  state at that moment has \<open>loading\<close> true and the error \<open>null\<close>.
\<close>

theorem load_invocation:
  "loading (fst (fetchInvestments_start s))
   \<and> snd (fetchInvestments_start s) = GET_investments (currentPage s - 1) 5
   \<and> sent mount = [GET_investments 0 5]
   \<and> loading (state mount)
   \<and> error (state mount) = None
   \<and> (reachable lc w \<and> step lc e w = Some w' \<and> sent w' = sent w @ [GET_investments p n]
        \<longrightarrow> loading (state w') \<and> error (state w') = None
            \<and> p = currentPage (state w') - 1 \<and> n = 5)"
proof (intro conjI impI)
  show "loading (fst (fetchInvestments_start s))"
    by (simp add: fetchInvestments_start_def)
  show "snd (fetchInvestments_start s) = GET_investments (currentPage s - 1) 5"
    by (simp add: fetchInvestments_start_def itemsPerPage_def)
  show "sent mount = [GET_investments 0 5]"
    by (simp add: mount_def run_effect_def fetchInvestments_start_def initialState_def
        itemsPerPage_def)
  show "loading (state mount)"
    by (simp add: mount_def run_effect_def fetchInvestments_start_def)
  show "error (state mount) = None"
    by (simp add: mount_def run_effect_def fetchInvestments_start_def initialState_def)
next
  assume a: "reachable lc w \<and> step lc e w = Some w' \<and> sent w' = sent w @ [GET_investments p n]"
  then have "error (state w) = None \<or> error (state w) = Some msg_load_error"
    using reachable_error [of lc w] by blast
  moreover from a obtain s' where nt: "\<not> truthy_opt (error (state w))"
    and w': "w' = commit s' w" and e: "error s' = error (state w)"
    using step_sends_get [of lc e w w' p n] by blast
  ultimately have n: "error s' = None"
    by (auto simp: msg_load_error_truthy)
  from a w' have "sent (commit s' w) = sent w @ [GET_investments p n]"
    by simp
  from commit_sends [OF this] w' n
  show "loading (state w')" and "error (state w') = None"
    and "p = currentPage (state w') - 1" and "n = 5"
    by simp_all
qed

text \<open>
  The mounted page receives six records and the user goes to the next page: the
  request for page 1 goes out with \<open>loading\<close> true and the error \<open>null\<close>.
\<close>

theorem load_invocation_witness:
  "reachable toLowerCase_latin1 (loaded_world 1)
   \<and> step toLowerCase_latin1 Proxima (loaded_world 1)
       = Some (commit (onClick_Proxima toLowerCase_latin1 (state (loaded_world 1)))
                 (loaded_world 1))
   \<and> sent (commit (onClick_Proxima toLowerCase_latin1 (state (loaded_world 1)))
              (loaded_world 1))
       = sent (loaded_world 1) @ [GET_investments 1 5]
   \<and> loading (state (commit (onClick_Proxima toLowerCase_latin1 (state (loaded_world 1)))
                       (loaded_world 1)))
   \<and> error (state (commit (onClick_Proxima toLowerCase_latin1 (state (loaded_world 1)))
                     (loaded_world 1))) = None"
proof -
  let ?w' = "commit (onClick_Proxima toLowerCase_latin1 (state (loaded_world 1)))
               (loaded_world 1)"
  have "step toLowerCase_latin1 (Settle 0 (Resolved True (Json six_records))) mount
          = Some (loaded_world 1)"
    by code_simp
  with reachable_mount have r: "reachable toLowerCase_latin1 (loaded_world 1)"
    by (rule reachable_step)
  have st: "step toLowerCase_latin1 Proxima (loaded_world 1) = Some ?w'"
    by code_simp
  have se: "sent ?w' = sent (loaded_world 1) @ [GET_investments 1 5]"
    by code_simp
  from load_invocation [of initialState toLowerCase_latin1 "loaded_world 1" Proxima ?w' 1 5]
    r st se
  show ?thesis by simp
qed

section \<open>Deleting a record\<close>

text \<open>
  Claim C6 at two deletes in flight. Three records are loaded; the user clicks delete
  on record 1 and on record 2 before either response arrives, and both deletes
  succeed. After the first response the list is records 2 and 3. After the second it
  is records 1 and 3: the continuation filters the list of the render in which the
  button was clicked, so record 1 is back, although its delete succeeded and it had
  been removed. No page request is sent besides the one on mount.
\<close>

theorem delete_overlap_restores_record:
  "map_option (investments \<circ> state)
     (run toLowerCase_latin1
        [Settle 0 (Resolved True (Json three_records)), Delete 1, Delete 2,
         Settle 0 (Resolved True Unparseable)] mount)
     = Some [rec_n 2, rec_n 3]
   \<and> map_option (investments \<circ> state)
     (run toLowerCase_latin1
        [Settle 0 (Resolved True (Json three_records)), Delete 1, Delete 2,
         Settle 0 (Resolved True Unparseable), Settle 0 (Resolved True Unparseable)] mount)
     = Some [rec_n 1, rec_n 3]
   \<and> map_option sent
     (run toLowerCase_latin1
        [Settle 0 (Resolved True (Json three_records)), Delete 1, Delete 2,
         Settle 0 (Resolved True Unparseable), Settle 0 (Resolved True Unparseable)] mount)
     = Some [GET_investments 0 5, DELETE_investment 1, DELETE_investment 2]
   \<and> map_option shown
     (run toLowerCase_latin1
        [Settle 0 (Resolved True (Json three_records)), Delete 1, Delete 2,
         Settle 0 (Resolved True Unparseable), Settle 0 (Resolved True Unparseable)] mount)
     = Some [toast_success msg_delete_success, toast_success msg_delete_success]"
  by code_simp

text \<open>
  Claim C7. When the delete request fails (the transport fails or the status is not a
  success), the failure notification is shown and the component state, with its record
  list, loading flag and error, is exactly what it was.
\<close>

theorem delete_failure:
  assumes "r = Rejected \<or> r = Resolved False b"
  shows "handleDelete_resume i snapshot r s = (s, [toast_error msg_delete_error])
       \<and> settle (PendingDelete i snapshot) r w =
           w\<lparr>shown := shown w @ [toast_error msg_delete_error]\<rparr>"
proof -
  from assms have "\<exists>e. handleDelete_try r = Inl e" by auto
  then have h: "handleDelete_resume i snapshot r s = (s, [toast_error msg_delete_error])" for s
    by (auto simp: delete_resume_failure)
  show ?thesis by (simp add: h settle_delete)
qed

text \<open>A delete of record 2 answered with a failure status.\<close>

theorem delete_failure_witness:
  "state (settle (PendingDelete 2 six_records) (Resolved False Unparseable) (loaded_world 1))
     = state (loaded_world 1)
   \<and> shown (settle (PendingDelete 2 six_records) (Resolved False Unparseable) (loaded_world 1))
     = [toast_error msg_delete_error]"
  using delete_failure [of "Resolved False Unparseable" Unparseable 2 six_records
      "state (loaded_world 1)" "loaded_world 1"]
  by (simp add: loaded_world_def)

section \<open>The pagination controls\<close>

text \<open>
  Claim C10, as the code has it. The two page buttons and the page label are rendered
  if and only if the table view is rendered (not loading, no error) and totalPages is
  above 1, that is when more than five records pass the filter. They are absent
  whenever there is no page or a single page, and also, whatever the page count, while
  the loading text or the error text is shown.
\<close>

theorem pagination_controls_iff:
  "(pagination_controls (render lc s) \<noteq> None
      \<longleftrightarrow> \<not> loading s \<and> \<not> truthy_opt (error s) \<and> 1 < totalPages lc s)
   \<and> (1 < totalPages lc s \<longleftrightarrow> 5 < length (filteredInvestments lc s))
   \<and> (totalPages lc s = 0 \<longrightarrow> pagination_controls (render lc s) = None)
   \<and> (totalPages lc s = 1 \<longrightarrow> pagination_controls (render lc s) = None)"
proof -
  have a: "pagination_controls (render lc s) \<noteq> None
      \<longleftrightarrow> \<not> loading s \<and> \<not> truthy_opt (error s) \<and> 1 < totalPages lc s"
    by (simp add: render_def)
  have b: "1 < totalPages lc s \<longleftrightarrow> 5 < length (filteredInvestments lc s)"
    unfolding total_pages_div by linarith
  from a b show ?thesis by auto
qed

text \<open>
  Six records on page 1: two pages, and the controls are there. One record: a single
  page, and no controls.
\<close>

theorem pagination_controls_iff_witness:
  "pagination_controls (render toLowerCase_latin1 (state (loaded_world 1))) \<noteq> None
   \<and> 1 < totalPages toLowerCase_latin1 (state (loaded_world 1))
   \<and> totalPages toLowerCase_latin1 (initialState\<lparr>investments := [tesouro], loading := False\<rparr>) = 1
   \<and> pagination_controls
        (render toLowerCase_latin1 (initialState\<lparr>investments := [tesouro], loading := False\<rparr>))
       = None"
proof -
  have l: "\<not> loading (state (loaded_world 1))"
    by (simp add: loaded_world_def)
  have e: "\<not> truthy_opt (error (state (loaded_world 1)))"
    by (simp add: loaded_world_def initialState_def)
  have t: "totalPages toLowerCase_latin1 (state (loaded_world 1)) = 2"
    by code_simp
  have t1: "totalPages toLowerCase_latin1
              (initialState\<lparr>investments := [tesouro], loading := False\<rparr>) = 1"
    by code_simp
  from pagination_controls_iff [of toLowerCase_latin1 "state (loaded_world 1)"] l e t
  have 1: "pagination_controls (render toLowerCase_latin1 (state (loaded_world 1))) \<noteq> None"
    by simp
  from pagination_controls_iff
    [of toLowerCase_latin1 "initialState\<lparr>investments := [tesouro], loading := False\<rparr>"] t1
  have 2: "pagination_controls
        (render toLowerCase_latin1 (initialState\<lparr>investments := [tesouro], loading := False\<rparr>))
       = None"
    by simp
  from 1 2 t t1 show ?thesis by simp
qed

text \<open>
  Claim C10 as stated fails in the "if" direction. Six records are loaded and the user
  goes to page 2: while that load is in flight there are two pages and the loading
  text is shown, without controls. When the load then fails there are still two pages
  and the error text is shown, without controls.
\<close>

theorem pagination_controls_iff_counterexample:
  "map_option (controls_and_total toLowerCase_latin1)
     (run toLowerCase_latin1
        [Settle 0 (Resolved True (Json six_records)), Proxima] mount)
     = Some (None, 2)
   \<and> map_option (view toLowerCase_latin1)
     (run toLowerCase_latin1
        [Settle 0 (Resolved True (Json six_records)), Proxima] mount)
     = Some (Some Carregando)
   \<and> map_option (controls_and_total toLowerCase_latin1)
     (run toLowerCase_latin1
        [Settle 0 (Resolved True (Json six_records)), Proxima,
         Settle 0 (Resolved False Unparseable)] mount)
     = Some (None, 2)
   \<and> map_option (view toLowerCase_latin1)
     (run toLowerCase_latin1
        [Settle 0 (Resolved True (Json six_records)), Proxima,
         Settle 0 (Resolved False Unparseable)] mount)
     = Some (Some (ErrorText (Some msg_load_error)))"
  by code_simp

end
